theory Spec2Isabelle
  imports Complex_Main "HOL-Library.Word" "HOL-Library.Log_Nat" "HOL-Library.Sublist"
    "HOL-Library.Signed_Division"
begin

section \<open>Machine integers, decimal formatting and float64 comparison\<close>

text \<open>
  Go's \<^verbatim>\<open>int\<close> is taken at its width on the 64-bit targets (amd64, arm64): a 64-bit
  two's-complement word. \<open>+\<close> on it wraps, \<open>sint\<close> reads its signed value.
\<close>

type_synonym go_int = "64 word"

text \<open>
  \<^verbatim>\<open>fmt.Sprintf("%d", n)\<close>: the decimal digits of \<open>n\<close>, most significant first,
  with a leading minus sign for a negative number.
\<close>

fun digits :: "nat \<Rightarrow> string" where
  "digits n = (if n < 10 then [char_of (48 + n)] else digits (n div 10) @ [char_of (48 + n mod 10)])"

declare digits.simps [simp del]

definition fmt_d :: "int \<Rightarrow> string" where
  "fmt_d n = (if n < 0 then CHR ''-'' # digits (nat (- n)) else digits (nat n))"

text \<open>
  The float64 values that occur in \<^verbatim>\<open>FindMissingEpisodes\<close> are \<^verbatim>\<open>float64(n)\<close> for an
  \<^verbatim>\<open>int\<close> \<open>n\<close>, the constant \<^verbatim>\<open>0.85\<close>, and one product of the two. None of them
  overflows or is subnormal, so IEEE 754 binary64 arithmetic on them is exact arithmetic
  followed by rounding to 53 significant bits, ties to even. \<open>round53\<close> is that rounding
  on an integer. Rounding commutes with scaling by a power of two, so the product with
  \<^verbatim>\<open>0.85\<close>, which is \<open>c085 / 2 ^ 53\<close>, is computed on integers scaled by \<open>2 ^ 53\<close>.
\<close>

definition roundTo :: "nat \<Rightarrow> int \<Rightarrow> int" where
  \<comment> \<open>the multiple of \<open>2 ^ s\<close> nearest to \<open>x\<close>, the even one of two equally near\<close>
  "roundTo s x =
     (if s = 0 then x
      else
        let q = x div 2 ^ s;
            r = x mod 2 ^ s;
            h = 2 ^ (s - 1)
        in (if h < r \<or> (r = h \<and> odd q) then q + 1 else q) * 2 ^ s)"

definition round53 :: "int \<Rightarrow> int" where
  \<comment> \<open>\<open>bitlen \<bar>x\<bar>\<close> is the number of significant bits of \<open>x\<close>\<close>
  "round53 x = roundTo (nat (bitlen \<bar>x\<bar> - 53)) x"

definition float64_of_int :: "int \<Rightarrow> int" where
  \<comment> \<open>\<^verbatim>\<open>float64(n)\<close>: always an integer\<close>
  "float64_of_int n = round53 n"

definition c085 :: int where
  \<comment> \<open>the float64 constant \<^verbatim>\<open>0.85\<close> is \<open>c085 / 2 ^ 53\<close>\<close>
  "c085 = 7656119366529843"

definition mul085 :: "int \<Rightarrow> int" where
  \<comment> \<open>the float64 product \<^verbatim>\<open>f * 0.85\<close> of an integer-valued \<open>f\<close>, scaled by \<open>2 ^ 53\<close>\<close>
  "mul085 f = round53 (f * c085)"

definition reaches85 :: "go_int \<Rightarrow> go_int \<Rightarrow> bool" where
  \<comment> \<open>\<^verbatim>\<open>float64(chainJfRuntime) >= float64(chainTvdbRuntimeAccum)*0.85\<close>\<close>
  "reaches85 jfRuntime accum =
     (mul085 (float64_of_int (sint accum)) \<le> float64_of_int (sint jfRuntime) * 2 ^ 53)"

section \<open>api/tvdb: episodes and the missing-episode scan\<close>

record Episode =
  ID :: go_int
  Name :: string
  Overview :: string
  Aired :: string
  SeasonNumber :: go_int
  Number :: go_int
  RuntimeMinutes :: go_int
  SeriesID :: go_int
  AbsoluteNumber :: go_int
  FinaleType :: string

record MissingEpisode =
  SeriesName :: string
  SeasonNumber :: go_int
  EpisodeNumber :: go_int
  EpisodeName :: string
  AirDate :: string
  Overview :: string

text \<open>
  The local variables of \<^verbatim>\<open>FindMissingEpisodes\<close>: the result slice and the four chain
  variables. Their initial values are Go's zero values.
\<close>

record locals =
  missing :: "MissingEpisode list"
  chainActive :: bool
  chainSeason :: go_int
  chainJfRuntime :: go_int
  chainTvdbRuntimeAccum :: go_int

definition locals0 :: locals where
  "locals0 = \<lparr>missing = [], chainActive = False, chainSeason = 0, chainJfRuntime = 0,
     chainTvdbRuntimeAccum = 0\<rparr>"

definition episodeKey :: "Episode \<Rightarrow> string" where
  \<comment> \<open>\<^verbatim>\<open>fmt.Sprintf("%d:%d", ep.SeasonNumber, ep.Number)\<close>\<close>
  "episodeKey ep =
     fmt_d (sint (Episode.SeasonNumber ep)) @ '':'' @ fmt_d (sint (Number ep))"

definition missingOf :: "Episode \<Rightarrow> MissingEpisode" where
  \<comment> \<open>the struct literal appended to \<open>missing\<close>; \<open>SeriesName\<close> is not set\<close>
  "missingOf ep =
     \<lparr>MissingEpisode.SeriesName = [],
      SeasonNumber = Episode.SeasonNumber ep,
      EpisodeNumber = Number ep,
      EpisodeName = Episode.Name ep,
      AirDate = Aired ep,
      Overview = Episode.Overview ep\<rparr>"

text \<open>
  Two things the loop reads are not arguments of the Go function: the standard library's
  \<^verbatim>\<open>time.Parse("2006-01-02", s)\<close>, here the parameter \<open>timeParse\<close> (\<open>None\<close> when it
  returns an error, otherwise the parsed instant), and the clock \<^verbatim>\<open>time.Now()\<close>, here
  the reading \<open>now\<close> of the iteration. Instants are integers; \<^verbatim>\<open>Before\<close> is \<open><\<close>.
\<close>

definition airedBefore :: "(string \<Rightarrow> int option) \<Rightarrow> int \<Rightarrow> Episode \<Rightarrow> bool" where
  \<comment> \<open>\<^verbatim>\<open>errDate == nil && airDate.Before(time.Now())\<close>\<close>
  "airedBefore timeParse now ep =
     (case timeParse (Aired ep) of None \<Rightarrow> False | Some airDate \<Rightarrow> airDate < now)"

definition loopBody ::
  "(string \<Rightarrow> int option) \<Rightarrow> int \<Rightarrow> (string \<rightharpoonup> go_int) \<Rightarrow> bool \<Rightarrow> locals \<Rightarrow> Episode \<Rightarrow> locals"
where
  "loopBody timeParse now jellyfinEpisodes checkSpecials v ep =
     (case jellyfinEpisodes (episodeKey ep) of
        Some jfRuntime \<Rightarrow>
          v\<lparr>chainActive := True,
            chainSeason := Episode.SeasonNumber ep,
            chainJfRuntime := jfRuntime,
            chainTvdbRuntimeAccum := Episode.RuntimeMinutes ep\<rparr>
      | None \<Rightarrow>
          if (Episode.SeasonNumber ep \<noteq> 0 \<or> checkSpecials) \<and> airedBefore timeParse now ep
          then
            if chainActive v \<and> chainSeason v = Episode.SeasonNumber ep
            then
              let accum = chainTvdbRuntimeAccum v + Episode.RuntimeMinutes ep
              in if reaches85 (chainJfRuntime v) accum
                 then v\<lparr>chainTvdbRuntimeAccum := accum\<rparr>
                 else v\<lparr>chainTvdbRuntimeAccum := accum,
                        missing := missing v @ [missingOf ep],
                        chainActive := False\<rparr>
            else v\<lparr>missing := missing v @ [missingOf ep], chainActive := False\<rparr>
          else v)"

text \<open>
  The \<^verbatim>\<open>for _, ep := range tvdbEpisodes\<close> loop. \<open>clock i\<close> is what \<^verbatim>\<open>time.Now()\<close>
  returns during iteration \<open>i\<close> (counted from 0).
\<close>

fun scan ::
  "(string \<Rightarrow> int option) \<Rightarrow> (nat \<Rightarrow> int) \<Rightarrow> (string \<rightharpoonup> go_int) \<Rightarrow> bool \<Rightarrow>
     nat \<Rightarrow> locals \<Rightarrow> Episode list \<Rightarrow> locals"
where
  "scan timeParse clock jellyfinEpisodes checkSpecials i v [] = v"
| "scan timeParse clock jellyfinEpisodes checkSpecials i v (ep # eps) =
     scan timeParse clock jellyfinEpisodes checkSpecials (Suc i)
       (loopBody timeParse (clock i) jellyfinEpisodes checkSpecials v ep) eps"

definition FindMissingEpisodes ::
  "(string \<Rightarrow> int option) \<Rightarrow> (nat \<Rightarrow> int) \<Rightarrow>
     Episode list \<Rightarrow> (string \<rightharpoonup> go_int) \<Rightarrow> bool \<Rightarrow> MissingEpisode list"
where
  "FindMissingEpisodes timeParse clock tvdbEpisodes jellyfinEpisodes checkSpecials =
     missing (scan timeParse clock jellyfinEpisodes checkSpecials 0 locals0 tvdbEpisodes)"

section \<open>models and api/jellyfin: records of the restore\<close>

text \<open>
  A Go \<^verbatim>\<open>map[string]string\<close> that the code only ranges over (\<open>ProviderIDs\<close>) is the list
  of its entries in the order the \<^verbatim>\<open>range\<close> loop visits them; Go leaves that order
  unspecified, so every theorem holds for every order. The same holds for the nested
  \<^verbatim>\<open>tvShowMap\<close>. A map the code looks keys up in is a partial function.
\<close>

record WatchedItem =
  ID :: string
  Name :: string
  Type :: int
  SeriesName :: string
  SeasonName :: string
  PlayedDate :: int
  ProviderIDs :: "(string \<times> string) list"

record MovieInfo =
  ID :: string
  Played :: bool

record EpisodeInfo =
  ID :: string
  Name :: string
  SeriesName :: string
  SeasonName :: string
  SeasonNumber :: go_int
  EpisodeNumber :: go_int
  RuntimeMinutes :: go_int
  ProviderIDs :: "(string \<times> string) list"
  Played :: bool

text \<open>The decoded JSON items of the three item queries (anonymous structs in the source).\<close>

record MovieItem =
  ID :: string
  Name :: string
  ProviderIds :: "(string \<times> string) list"
  Played :: bool

record SeriesItem =
  ID :: string
  Name :: string

record EpisodeItem =
  ID :: string
  Name :: string
  SeriesName :: string
  SeasonName :: string
  IndexNumber :: go_int
  ParentIndexNumber :: go_int
  RuntimeTicks :: go_int
  ProviderIds :: "(string \<times> string) list"
  Played :: bool

text \<open>The local type \<^verbatim>\<open>EpisodeInfo\<close> declared inside \<^verbatim>\<open>restoreTVShows\<close>.\<close>

record main_EpisodeInfo =
  ID :: string
  Played :: bool

datatype error = RequestFailed | DecodeFailed | SeriesNotFound string

datatype request = GetMovies | SearchSeries string | GetEpisodes string | PostPlayed string

text \<open>
  The Jellyfin server behind \<^verbatim>\<open>jellyfin.Client\<close>. Every client method sends one HTTP
  request; the model appends it to the history of requests and takes the outcome
  (\<^verbatim>\<open>makeRequest\<close> followed by JSON decoding) from the server, which may answer depending
  on all requests sent before. \<open>Inl\<close> is the error of a failed request or decoding.
  Console output is not modelled.
\<close>

record Client =
  moviesResponse :: "request list \<Rightarrow> error + MovieItem list"
  searchResponse :: "request list \<Rightarrow> string \<Rightarrow> error + SeriesItem list"
  episodesResponse :: "request list \<Rightarrow> string \<Rightarrow> error + EpisodeItem list"
  playedResponse :: "request list \<Rightarrow> string \<Rightarrow> error option"

definition MarkAsWatched :: "Client \<Rightarrow> request list \<Rightarrow> string \<Rightarrow> error option \<times> request list" where
  "MarkAsWatched client h itemID = (playedResponse client h itemID, h @ [PostPlayed itemID])"

definition FindSeriesID :: "Client \<Rightarrow> request list \<Rightarrow> string \<Rightarrow> (error + string) \<times> request list" where
  "FindSeriesID client h seriesName =
     (let h' = h @ [SearchSeries seriesName] in
      case searchResponse client h seriesName of
        Inl err \<Rightarrow> (Inl err, h')
      | Inr items \<Rightarrow>
          (case find (\<lambda>item. SeriesItem.Name item = seriesName) items of
             Some item \<Rightarrow> (Inr (SeriesItem.ID item), h')
           | None \<Rightarrow>
               (case items of
                  item # _ \<Rightarrow> (Inr (SeriesItem.ID item), h')
                | [] \<Rightarrow> (Inl (SeriesNotFound seriesName), h'))))"

definition toEpisodeInfo :: "EpisodeItem \<Rightarrow> EpisodeInfo" where
  "toEpisodeInfo item =
     \<lparr>EpisodeInfo.ID = EpisodeItem.ID item,
      Name = EpisodeItem.Name item,
      SeriesName = EpisodeItem.SeriesName item,
      SeasonName = EpisodeItem.SeasonName item,
      SeasonNumber = ParentIndexNumber item,
      EpisodeNumber = IndexNumber item,
      RuntimeMinutes = word_of_int (sint (RuntimeTicks item) sdiv (60 * 10 * 1000 * 1000)),
      ProviderIDs = EpisodeItem.ProviderIds item,
      Played = EpisodeItem.Played item\<rparr>"

definition GetEpisodesForSeries ::
  "Client \<Rightarrow> request list \<Rightarrow> string \<Rightarrow> (error + EpisodeInfo list) \<times> request list"
where
  "GetEpisodesForSeries client h seriesID =
     (case episodesResponse client h seriesID of
        Inl err \<Rightarrow> (Inl err, h @ [GetEpisodes seriesID])
      | Inr items \<Rightarrow> (Inr (map toEpisodeInfo items), h @ [GetEpisodes seriesID]))"

text \<open>
  The two lookup maps of \<^verbatim>\<open>GetAllMovies\<close>, filled item by item; a later item overwrites
  an earlier one under the same key.
\<close>

definition putAll :: "(string \<rightharpoonup> 'i) \<Rightarrow> 'i \<Rightarrow> (string \<times> string) list \<Rightarrow> (string \<rightharpoonup> 'i)" where
  \<comment> \<open>\<^verbatim>\<open>for provider, id := range ids { m[provider + ":" + id] = info }\<close>\<close>
  "putAll m info ids = foldl (\<lambda>m (provider, pid). m(provider @ '':'' @ pid \<mapsto> info)) m ids"

definition addMovie ::
  "(string \<rightharpoonup> MovieInfo) \<times> (string \<rightharpoonup> MovieInfo) \<Rightarrow> MovieItem \<Rightarrow>
     (string \<rightharpoonup> MovieInfo) \<times> (string \<rightharpoonup> MovieInfo)"
where
  "addMovie maps item =
     (let info = \<lparr>MovieInfo.ID = MovieItem.ID item, Played = MovieItem.Played item\<rparr>
      in (putAll (fst maps) info (MovieItem.ProviderIds item),
          (snd maps)(MovieItem.Name item \<mapsto> info)))"

definition GetAllMovies ::
  "Client \<Rightarrow> request list \<Rightarrow>
     (error + (string \<rightharpoonup> MovieInfo) \<times> (string \<rightharpoonup> MovieInfo)) \<times> request list"
where
  "GetAllMovies client h =
     (case moviesResponse client h of
        Inl err \<Rightarrow> (Inl err, h @ [GetMovies])
      | Inr items \<Rightarrow> (Inr (foldl addMovie (Map.empty, Map.empty) items), h @ [GetMovies]))"

section \<open>main: resolving snapshot records and restoring them\<close>

text \<open>
  The loop \<^verbatim>\<open>for provider, id := range item.ProviderIDs\<close> with its \<^verbatim>\<open>break\<close> at the
  first key found in \<open>providerIdMap\<close>.
\<close>

fun tryProviderIDs :: "(string \<rightharpoonup> 'i) \<Rightarrow> (string \<times> string) list \<Rightarrow> 'i option" where
  "tryProviderIDs providerIdMap [] = None"
| "tryProviderIDs providerIdMap ((provider, pid) # rest) =
     (case providerIdMap (provider @ '':'' @ pid) of
        Some info \<Rightarrow> Some info
      | None \<Rightarrow> tryProviderIDs providerIdMap rest)"

definition resolveMovie ::
  "(string \<rightharpoonup> MovieInfo) \<Rightarrow> (string \<rightharpoonup> MovieInfo) \<Rightarrow> WatchedItem \<Rightarrow> MovieInfo option"
where
  \<comment> \<open>lines 235 to 254 of \<^verbatim>\<open>restoreMovies\<close>; \<open>None\<close> is \<^verbatim>\<open>found == false\<close>\<close>
  "resolveMovie providerIdMap nameMap movie =
     (case tryProviderIDs providerIdMap (WatchedItem.ProviderIDs movie) of
        Some info \<Rightarrow> Some info
      | None \<Rightarrow> nameMap (WatchedItem.Name movie))"

definition resolveEpisode ::
  "(string \<rightharpoonup> main_EpisodeInfo) \<Rightarrow> (string \<rightharpoonup> main_EpisodeInfo) \<Rightarrow> WatchedItem \<Rightarrow>
     main_EpisodeInfo option"
where
  \<comment> \<open>lines 342 to 362 of \<^verbatim>\<open>restoreTVShows\<close>\<close>
  "resolveEpisode providerIdMap nameSeasonMap episode =
     (case tryProviderIDs providerIdMap (WatchedItem.ProviderIDs episode) of
        Some info \<Rightarrow> Some info
      | None \<Rightarrow> nameSeasonMap (WatchedItem.SeasonName episode @ '':'' @ WatchedItem.Name episode))"

text \<open>
  The two counters and the history of requests sent so far. The counters only grow by
  the number of records handled, which Go holds in memory, so they cannot overflow and
  are natural numbers.
\<close>

record tally =
  successful :: nat
  failed :: nat
  requests :: "request list"

definition movieBody ::
  "Client \<Rightarrow> (string \<rightharpoonup> MovieInfo) \<Rightarrow> (string \<rightharpoonup> MovieInfo) \<Rightarrow> tally \<Rightarrow> WatchedItem \<Rightarrow> tally"
where
  "movieBody client providerIdMap nameMap t movie =
     (case resolveMovie providerIdMap nameMap movie of
        None \<Rightarrow> t\<lparr>failed := failed t + 1\<rparr>
      | Some movieInfo \<Rightarrow>
          if MovieInfo.Played movieInfo then t\<lparr>successful := successful t + 1\<rparr>
          else
            (case MarkAsWatched client (requests t) (MovieInfo.ID movieInfo) of
               (Some err, h) \<Rightarrow> t\<lparr>failed := failed t + 1, requests := h\<rparr>
             | (None, h) \<Rightarrow> t\<lparr>successful := successful t + 1, requests := h\<rparr>))"

definition restoreMovies :: "Client \<Rightarrow> request list \<Rightarrow> WatchedItem list \<Rightarrow> tally" where
  "restoreMovies client h movies =
     (case GetAllMovies client h of
        (Inl err, h') \<Rightarrow> \<lparr>successful = 0, failed = length movies, requests = h'\<rparr>
      | (Inr (providerIdMap, nameMap), h') \<Rightarrow>
          foldl (movieBody client providerIdMap nameMap)
            \<lparr>successful = 0, failed = 0, requests = h'\<rparr> movies)"

definition addEpisode ::
  "(string \<rightharpoonup> main_EpisodeInfo) \<times> (string \<rightharpoonup> main_EpisodeInfo) \<Rightarrow> EpisodeInfo \<Rightarrow>
     (string \<rightharpoonup> main_EpisodeInfo) \<times> (string \<rightharpoonup> main_EpisodeInfo)"
where
  \<comment> \<open>body of \<^verbatim>\<open>for _, ep := range episodes\<close>; the pair is (providerIdMap, nameSeasonMap)\<close>
  "addEpisode maps ep =
     (let info = \<lparr>main_EpisodeInfo.ID = EpisodeInfo.ID ep, Played = EpisodeInfo.Played ep\<rparr>
      in (putAll (fst maps) info (EpisodeInfo.ProviderIDs ep),
          (snd maps)(EpisodeInfo.SeasonName ep @ '':'' @ EpisodeInfo.Name ep \<mapsto> info)))"

definition episodeBody ::
  "Client \<Rightarrow> (string \<rightharpoonup> main_EpisodeInfo) \<Rightarrow> (string \<rightharpoonup> main_EpisodeInfo) \<Rightarrow> tally \<Rightarrow>
     WatchedItem \<Rightarrow> tally"
where
  "episodeBody client providerIdMap nameSeasonMap t episode =
     (case resolveEpisode providerIdMap nameSeasonMap episode of
        None \<Rightarrow> t\<lparr>failed := failed t + 1\<rparr>
      | Some episodeInfo \<Rightarrow>
          if main_EpisodeInfo.Played episodeInfo then t\<lparr>successful := successful t + 1\<rparr>
          else
            (case MarkAsWatched client (requests t) (main_EpisodeInfo.ID episodeInfo) of
               (Some err, h) \<Rightarrow> t\<lparr>failed := failed t + 1, requests := h\<rparr>
             | (None, h) \<Rightarrow> t\<lparr>successful := successful t + 1, requests := h\<rparr>))"

definition seasonBody ::
  "Client \<Rightarrow> (string \<rightharpoonup> main_EpisodeInfo) \<Rightarrow> (string \<rightharpoonup> main_EpisodeInfo) \<Rightarrow> tally \<Rightarrow>
     string \<times> WatchedItem list \<Rightarrow> tally"
where
  "seasonBody client providerIdMap nameSeasonMap t season =
     foldl (episodeBody client providerIdMap nameSeasonMap) t (snd season)"

definition countEpisodes :: "(string \<times> WatchedItem list) list \<Rightarrow> nat" where
  \<comment> \<open>\<^verbatim>\<open>for _, episodes := range seasons { n += len(episodes) }\<close>\<close>
  "countEpisodes seasons = foldl (\<lambda>n season. n + length (snd season)) 0 seasons"

definition showBody ::
  "Client \<Rightarrow> tally \<Rightarrow> string \<times> (string \<times> WatchedItem list) list \<Rightarrow> tally"
where
  "showBody client t entry =
     (let seriesName = fst entry; seasons = snd entry in
      case FindSeriesID client (requests t) seriesName of
        (Inl err, h) \<Rightarrow> t\<lparr>failed := failed t + countEpisodes seasons, requests := h\<rparr>
      | (Inr seriesID, h) \<Rightarrow>
          (case GetEpisodesForSeries client h seriesID of
             (Inl err, h') \<Rightarrow> t\<lparr>failed := failed t + countEpisodes seasons, requests := h'\<rparr>
           | (Inr episodes, h') \<Rightarrow>
               (let maps = foldl addEpisode (Map.empty, Map.empty) episodes
                in foldl (seasonBody client (fst maps) (snd maps)) (t\<lparr>requests := h'\<rparr>) seasons)))"

definition restoreTVShows ::
  "Client \<Rightarrow> request list \<Rightarrow> (string \<times> (string \<times> WatchedItem list) list) list \<Rightarrow> tally"
where
  "restoreTVShows client h tvShowMap =
     foldl (showBody client) \<lparr>successful = 0, failed = 0, requests = h\<rparr> tvShowMap"

section \<open>Example data\<close>

text \<open>
  What \<^verbatim>\<open>time.Parse("2006-01-02", s)\<close> returns on the strings of the examples: for a
  date the instant 00:00:00 UTC of that day, here in seconds since 1970-01-01, and an
  error for the empty string. No other string occurs in the examples. The clock of an
  example stands still.
\<close>

definition exParse :: "string \<Rightarrow> int option" where
  "exParse s =
     (if s = ''2020-01-01'' then Some 1577836800
      else if s = ''2020-01-08'' then Some 1578441600
      else None)"

definition clockAt :: "int \<Rightarrow> nat \<Rightarrow> int" where
  "clockAt t i = t"

definition exPilot :: Episode where
  "exPilot = \<lparr>Episode.ID = 11, Name = ''Pilot'', Overview = ''It begins'', Aired = ''2020-01-01'',
     SeasonNumber = 1, Number = 1, RuntimeMinutes = 100, SeriesID = 7, AbsoluteNumber = 1,
     FinaleType = []\<rparr>"

definition exUnaired :: Episode where
  "exUnaired = \<lparr>Episode.ID = 12, Name = ''TBA'', Overview = [], Aired = [],
     SeasonNumber = 1, Number = 2, RuntimeMinutes = 20, SeriesID = 7, AbsoluteNumber = 2,
     FinaleType = []\<rparr>"

definition exPart2 :: Episode where
  "exPart2 = \<lparr>Episode.ID = 13, Name = ''Part 2'', Overview = ''It goes on'', Aired = ''2020-01-08'',
     SeasonNumber = 1, Number = 3, RuntimeMinutes = 20, SeriesID = 7, AbsoluteNumber = 3,
     FinaleType = []\<rparr>"

definition exSpecial :: Episode where
  "exSpecial = \<lparr>Episode.ID = 10, Name = ''Making of'', Overview = [], Aired = ''2020-01-01'',
     SeasonNumber = 0, Number = 1, RuntimeMinutes = 10, SeriesID = 7, AbsoluteNumber = 0,
     FinaleType = []\<rparr>"

definition noLocal :: "string \<rightharpoonup> go_int" where
  "noLocal = Map.empty"

definition exLocal :: "go_int \<Rightarrow> (string \<rightharpoonup> go_int)" where
  \<comment> \<open>only the pilot is in Jellyfin, with the given runtime\<close>
  "exLocal runtime = [''1:1'' \<mapsto> runtime]"

definition exMovie :: WatchedItem where
  "exMovie = \<lparr>WatchedItem.ID = ''old-1'', Name = ''Heat'', Type = 1, SeriesName = [],
     SeasonName = [], PlayedDate = 0, ProviderIDs = [(''Imdb'', ''tt1''), (''Tmdb'', ''1'')]\<rparr>"

definition exEpisode :: WatchedItem where
  "exEpisode = \<lparr>WatchedItem.ID = ''old-2'', Name = ''Ep5'', Type = 2, SeriesName = ''Show'',
     SeasonName = ''Season 1'', PlayedDate = 0, ProviderIDs = []\<rparr>"

definition exIds :: "string \<rightharpoonup> MovieInfo" where
  "exIds = [''Imdb:tt1'' \<mapsto> \<lparr>MovieInfo.ID = ''m1'', Played = True\<rparr>]"

definition exNames :: "string \<rightharpoonup> MovieInfo" where
  "exNames = [''Heat'' \<mapsto> \<lparr>MovieInfo.ID = ''m2'', Played = False\<rparr>]"

definition exSeasonNames :: "string \<rightharpoonup> main_EpisodeInfo" where
  "exSeasonNames = [''Season 1:Ep5'' \<mapsto> \<lparr>main_EpisodeInfo.ID = ''e5'', Played = True\<rparr>]"

definition exServer :: Client where
  \<comment> \<open>one movie, no series, and every attempt to mark an item fails\<close>
  "exServer =
     \<lparr>moviesResponse = (\<lambda>h. Inr [\<lparr>MovieItem.ID = ''m1'', Name = ''Heat'',
          ProviderIds = [(''Imdb'', ''tt1'')], Played = True\<rparr>]),
      searchResponse = (\<lambda>h seriesName. Inr []),
      episodesResponse = (\<lambda>h seriesID. Inl RequestFailed),
      playedResponse = (\<lambda>h itemID. Some RequestFailed)\<rparr>"

definition exOffline :: Client where
  \<comment> \<open>every request fails\<close>
  "exOffline =
     \<lparr>moviesResponse = (\<lambda>h. Inl RequestFailed),
      searchResponse = (\<lambda>h seriesName. Inl RequestFailed),
      episodesResponse = (\<lambda>h seriesID. Inl RequestFailed),
      playedResponse = (\<lambda>h itemID. Some RequestFailed)\<rparr>"

section \<open>The float64 comparison against 85 percent\<close>

text \<open>
  \<open>roundTo s\<close> never crosses a multiple of \<open>2 ^ s\<close>, and it moves to the multiple below
  when that one is nearer than half a step.
\<close>

lemma roundTo_le:
  assumes "x \<le> g * 2 ^ s"
  shows "roundTo s x \<le> g * 2 ^ s"
proof (cases "s = 0")
  case True
  with assms show ?thesis by (simp add: roundTo_def)
next
  case False
  let ?p = "(2::int) ^ s"
  let ?h = "(2::int) ^ (s - 1)"
  have p: "0 < ?p" by simp
  have hpos: "0 < ?h" by simp
  from assms have q: "x div ?p \<le> g"
    using zdiv_mono1 [OF assms p] by simp
  show ?thesis
  proof (cases "x div ?p = g")
    case True
    have "x = (x div ?p) * ?p + x mod ?p" by (rule div_mult_mod_eq [symmetric])
    with True have "x = g * ?p + x mod ?p" by simp
    with assms have "x mod ?p \<le> 0" by linarith
    moreover have "0 \<le> x mod ?p" using p by simp
    ultimately have r: "x mod ?p = 0" by simp
    from r hpos True False show ?thesis
      by (simp add: roundTo_def Let_def)
  next
    case ne: False
    with q have "x div ?p + 1 \<le> g" by simp
    then have "(x div ?p + 1) * ?p \<le> g * ?p"
      using p by (simp add: mult_right_mono)
    moreover have "x div ?p * ?p \<le> (x div ?p + 1) * ?p"
      using p by (simp add: mult_right_mono)
    ultimately show ?thesis
      using False by (simp add: roundTo_def Let_def)
  qed
qed

lemma roundTo_gt:
  assumes "g * 2 ^ s + 2 ^ (s - 1) < x" and "s \<noteq> 0"
  shows "g * 2 ^ s < roundTo s x"
proof -
  let ?p = "(2::int) ^ s"
  let ?h = "(2::int) ^ (s - 1)"
  have p: "0 < ?p" by simp
  have hpos: "0 < ?h" by simp
  from assms have "g * ?p \<le> x" using hpos by linarith
  from zdiv_mono1 [OF this p] have q: "g \<le> x div ?p" by simp
  have x: "x = (x div ?p) * ?p + x mod ?p" by (rule div_mult_mod_eq [symmetric])
  show ?thesis
  proof (cases "x div ?p = g")
    case True
    with x have "x = g * ?p + x mod ?p" by simp
    with assms(1) have "?h < x mod ?p" by linarith
    then have "roundTo s x = (g + 1) * ?p"
      using assms(2) True by (simp add: roundTo_def Let_def)
    moreover have "g * ?p < (g + 1) * ?p"
      using p by (simp add: distrib_right)
    ultimately show ?thesis by simp
  next
    case False
    with q have "g + 1 \<le> x div ?p" by simp
    then have "(g + 1) * ?p \<le> x div ?p * ?p"
      using p by (simp add: mult_right_mono)
    moreover have "g * ?p < (g + 1) * ?p"
      using p by (simp add: distrib_right)
    moreover have "x div ?p * ?p \<le> (x div ?p + 1) * ?p"
      using p by (simp add: mult_right_mono)
    ultimately show ?thesis
      using assms(2) by (simp add: roundTo_def Let_def)
  qed
qed

lemma roundTo_down:
  assumes "g * 2 ^ s \<le> x" and "x < g * 2 ^ s + 2 ^ (s - 1)" and "s \<noteq> 0"
  shows "roundTo s x = g * 2 ^ s"
proof -
  let ?p = "(2::int) ^ s"
  let ?h = "(2::int) ^ (s - 1)"
  have ph: "?p = 2 * ?h" using assms(3) by (cases s) simp_all
  have hpos: "0 < ?h" by simp
  let ?d = "x - g * ?p"
  have d: "0 \<le> ?d" "?d < ?p" using assms ph hpos by linarith+
  have xd: "x = ?d + g * ?p" by simp
  have "x div ?p = (?d + g * ?p) div ?p" by simp
  also have "\<dots> = g + ?d div ?p" by (rule div_mult_self1) simp
  also have "\<dots> = g" using d by simp
  finally have q: "x div ?p = g" .
  have "x mod ?p = (?d + g * ?p) mod ?p" by simp
  also have "\<dots> = ?d mod ?p" by (rule mod_mult_self1)
  also have "\<dots> = ?d" using d by simp
  finally have r: "x mod ?p = ?d" .
  from assms(2) have "\<not> ?h < ?d" "?d \<noteq> ?h" by linarith+
  then show ?thesis
    using assms(3) by (simp add: roundTo_def Let_def q r)
qed


text \<open>Integers below \<open>2 ^ 53\<close> in absolute value are float64 values.\<close>

lemma round53_exact:
  assumes "\<bar>x\<bar> < 2 ^ 53"
  shows "round53 x = x"
proof -
  from assms have "bitlen \<bar>x\<bar> \<le> 53"
    by (simp add: bitlen_le_iff_power)
  then show ?thesis
    by (simp add: round53_def roundTo_def)
qed

text \<open>
  \<open>c085 / 2 ^ 53\<close> is the float64 nearest to \<open>17 / 20\<close>: it has 53 significant bits and
  differs from \<open>17 / 20\<close> by at most half a unit in the last place.
\<close>

lemma c085_correctly_rounded:
  "2 ^ 52 \<le> c085 \<and> c085 < 2 ^ 53 \<and> \<bar>20 * c085 - 17 * 2 ^ 53\<bar> \<le> 10"
  by (simp add: c085_def)

text \<open>
  For runtimes up to \<open>2 ^ 48\<close> minutes in absolute value the rounding of the product does
  not change the outcome of the comparison: it is the comparison of \<open>jfRuntime\<close> with
  exactly \<open>17 / 20\<close> of \<open>accum\<close>.
\<close>

lemma mul085_le_iff:
  assumes n: "\<bar>n\<bar> \<le> 2 ^ 48"
  shows "round53 (n * c085) \<le> a * 2 ^ 53 \<longleftrightarrow> 17 * n \<le> 20 * a"
proof -
  define P where "P = n * c085"
  define M :: int where "M = a * 2 ^ 53"
  define s where "s = nat (bitlen \<bar>P\<bar> - 53)"
  define H :: int where "H = 2 ^ (s - 1)"
  have r: "round53 P = roundTo s P"
    by (simp add: round53_def s_def)
  have absP: "\<bar>P\<bar> = \<bar>n\<bar> * 7656119366529843"
    by (simp add: P_def abs_mult c085_def)
  have F1: "20 * P = 20 * M + (17 * n - 20 * a) * 2 ^ 53 - 4 * n"
    by (simp add: P_def M_def c085_def algebra_simps)
  have Hpos: "1 \<le> H"
    by (simp add: H_def)
  from n have "\<bar>P\<bar> < 2 ^ 101"
    unfolding absP by simp
  then have "bitlen \<bar>P\<bar> \<le> 101"
    by (simp add: bitlen_le_iff_power)
  then have s53: "s \<le> 53"
    by (simp add: s_def)
  define g where "g = a * 2 ^ (53 - s)"
  have "(2::int) ^ 53 = 2 ^ (53 - s + s)"
    using s53 by simp
  also have "\<dots> = 2 ^ (53 - s) * 2 ^ s"
    by (rule power_add)
  finally have grid: "M = g * 2 ^ s"
    by (simp add: g_def M_def)
  have F3: "H * 2 ^ 53 \<le> \<bar>P\<bar> \<and> \<bar>P\<bar> < H * 2 ^ 54" if "s \<noteq> 0"
  proof -
    from that have b: "bitlen \<bar>P\<bar> = int s + 53"
      by (simp add: s_def)
    then have "bitlen \<bar>P\<bar> \<noteq> 0" by simp
    then have pos: "0 < \<bar>P\<bar>"
      by (simp add: bitlen_eq_zero_iff)
    have e1: "nat (bitlen \<bar>P\<bar> - 1) = (s - 1) + 53"
      using that b by simp
    have e2: "nat (bitlen \<bar>P\<bar>) = (s - 1) + 54"
      using that b by simp
    from bitlen_bounds [OF pos] show ?thesis
      unfolding e1 e2 power_add H_def by simp
  qed
  have "round53 P \<le> M \<longleftrightarrow> 17 * n \<le> 20 * a"
  proof
    assume le: "17 * n \<le> 20 * a"
    show "round53 P \<le> M"
    proof (cases "P \<le> M")
      case True
      then show ?thesis
        unfolding r grid by (rule roundTo_le)
    next
      case False
      then have gt: "M < P" by simp
      from le have "(17 * n - 20 * a) * 2 ^ 53 \<le> 0 * (2 ^ 53 :: int)"
        by (intro mult_right_mono) simp_all
      with F1 have d: "20 * (P - M) \<le> - 4 * n"
        by simp
      with gt have n5: "5 \<le> \<bar>n\<bar>" by simp
      then have "2 ^ 54 \<le> \<bar>P\<bar>"
        unfolding absP by simp
      then have "55 \<le> bitlen \<bar>P\<bar>"
        by (simp add: bitlen_ge_iff_power)
      then have s0: "s \<noteq> 0"
        by (simp add: s_def)
      from F3 [OF s0] have "\<bar>n\<bar> * 7656119366529843 < H * 2 ^ 54"
        unfolding absP by simp
      with d have "P - M < H"
        by simp
      then have up: "P < g * 2 ^ s + 2 ^ (s - 1)"
        unfolding grid [symmetric] H_def by simp
      from gt have "g * 2 ^ s \<le> P"
        unfolding grid by simp
      then have "roundTo s P = g * 2 ^ s"
        using up s0 by (rule roundTo_down)
      then show ?thesis
        unfolding r grid by simp
    qed
  next
    assume ge: "round53 P \<le> M"
    show "17 * n \<le> 20 * a"
    proof (rule ccontr)
      assume "\<not> 17 * n \<le> 20 * a"
      then have "1 \<le> 17 * n - 20 * a" by simp
      then have "1 * 2 ^ 53 \<le> (17 * n - 20 * a) * (2 ^ 53 :: int)"
        by (rule mult_right_mono) simp
      with F1 have d: "2 ^ 53 - 4 * n \<le> 20 * (P - M)"
        by simp
      from n have "4 * n \<le> 2 ^ 50" by simp
      with d have big: "7 * 2 ^ 50 \<le> 20 * (P - M)" by simp
      show False
      proof (cases "s = 0")
        case True
        then have "round53 P = P"
          by (simp add: r roundTo_def)
        with ge big show False by simp
      next
        case False
        from F3 [OF False] have "H * 2 ^ 53 \<le> \<bar>n\<bar> * 7656119366529843"
          unfolding absP by simp
        with n have "H < 2 ^ 48" by simp
        with big have "M + H < P" by simp
        then have "g * 2 ^ s + 2 ^ (s - 1) < P"
          unfolding grid [symmetric] H_def .
        then have "g * 2 ^ s < roundTo s P"
          using False by (rule roundTo_gt)
        with ge show False
          unfolding r grid by simp
      qed
    qed
  qed
  then show ?thesis
    unfolding P_def M_def .
qed

lemma reaches85_exact:
  assumes "\<bar>sint jfRuntime\<bar> \<le> 2 ^ 48" and "\<bar>sint accum\<bar> \<le> 2 ^ 48"
  shows "reaches85 jfRuntime accum \<longleftrightarrow> 17 * sint accum \<le> 20 * sint jfRuntime"
proof -
  from assms have "\<bar>sint jfRuntime\<bar> < 2 ^ 53" and "\<bar>sint accum\<bar> < 2 ^ 53"
    by simp_all
  then have "float64_of_int (sint jfRuntime) = sint jfRuntime"
    and "float64_of_int (sint accum) = sint accum"
    by (simp_all only: float64_of_int_def round53_exact)
  then show ?thesis
    unfolding reaches85_def mul085_def by (simp only: mul085_le_iff [OF assms(2)])
qed

section \<open>Properties of the missing-episode scan\<close>

lemma scan_append:
  "scan tp clk jf cs i v (xs @ ys) =
     scan tp clk jf cs (i + length xs) (scan tp clk jf cs i v xs) ys"
  by (induction xs arbitrary: i v) simp_all

lemma loopBody_now_cong:
  "airedBefore tp now ep = airedBefore tp now' ep \<Longrightarrow>
   loopBody tp now jf cs v ep = loopBody tp now' jf cs v ep"
  by (simp add: loopBody_def)

lemma scan_verdict_cong:
  "(\<And>j. j < length eps \<Longrightarrow>
      airedBefore tp (clk (i + j)) (eps ! j) = airedBefore tp (clk' (i' + j)) (eps ! j)) \<Longrightarrow>
   scan tp clk jf cs i v eps = scan tp clk' jf cs i' v eps"
proof (induction eps arbitrary: i i' v)
  case Nil
  show ?case by simp
next
  case (Cons ep eps)
  from Cons.prems [of 0] have "airedBefore tp (clk i) ep = airedBefore tp (clk' i') ep"
    by simp
  then have h: "loopBody tp (clk i) jf cs v ep = loopBody tp (clk' i') jf cs v ep"
    by (rule loopBody_now_cong)
  have "scan tp clk jf cs (Suc i) w eps = scan tp clk' jf cs (Suc i') w eps" for w
  proof (rule Cons.IH)
    fix j
    assume "j < length eps"
    with Cons.prems [of "Suc j"]
    show "airedBefore tp (clk (Suc i + j)) (eps ! j) = airedBefore tp (clk' (Suc i' + j)) (eps ! j)"
      by simp
  qed
  with h show ?case by simp
qed

lemma loopBody_skip:
  "jf (episodeKey ep) = None \<Longrightarrow> \<not> airedBefore tp now ep \<Longrightarrow> loopBody tp now jf cs v ep = v"
  by (simp add: loopBody_def)

lemma loopBody_due:
  assumes "jf (episodeKey ep) = None"
    and "Episode.SeasonNumber ep \<noteq> 0 \<or> cs"
    and "airedBefore tp now ep"
  shows "loopBody tp now jf cs v ep =
     (if chainActive v \<and> chainSeason v = Episode.SeasonNumber ep \<and>
          reaches85 (chainJfRuntime v) (chainTvdbRuntimeAccum v + Episode.RuntimeMinutes ep)
      then v\<lparr>chainTvdbRuntimeAccum := chainTvdbRuntimeAccum v + Episode.RuntimeMinutes ep\<rparr>
      else if chainActive v \<and> chainSeason v = Episode.SeasonNumber ep
      then v\<lparr>chainTvdbRuntimeAccum := chainTvdbRuntimeAccum v + Episode.RuntimeMinutes ep,
             missing := missing v @ [missingOf ep], chainActive := False\<rparr>
      else v\<lparr>missing := missing v @ [missingOf ep], chainActive := False\<rparr>)"
  using assms by (simp add: loopBody_def Let_def)

lemma loopBody_inactive:
  assumes "jf (episodeKey ep) = None" and "airedBefore tp now ep" and "\<not> chainActive v"
  shows "loopBody tp now jf cs v ep =
     (if Episode.SeasonNumber ep \<noteq> 0 \<or> cs
      then v\<lparr>missing := missing v @ [missingOf ep], chainActive := False\<rparr> else v)"
  using assms by (simp add: loopBody_def)

lemma loopBody_missing_cases:
  "missing (loopBody tp now jf cs v ep) = missing v \<or>
   (missing (loopBody tp now jf cs v ep) = missing v @ [missingOf ep] \<and> jf (episodeKey ep) = None)"
  by (simp add: loopBody_def Let_def split: option.split)

lemma scan_missing_prefix:
  "prefix (missing v) (missing (scan tp clk jf cs i v eps))"
proof (induction eps arbitrary: i v)
  case Nil
  show ?case by simp
next
  case (Cons ep eps)
  have "prefix (missing v) (missing (loopBody tp (clk i) jf cs v ep))"
    by (simp add: loopBody_def Let_def split: option.split)
  also have "prefix \<dots> (missing (scan tp clk jf cs (Suc i) (loopBody tp (clk i) jf cs v ep) eps))"
    by (rule Cons.IH)
  finally show ?case by simp
qed

lemma loopBody_stays_inactive:
  "jf (episodeKey ep) = None \<Longrightarrow> \<not> chainActive v \<Longrightarrow> \<not> chainActive (loopBody tp now jf cs v ep)"
  by (simp add: loopBody_def)

lemma scan_stays_inactive:
  "\<forall>ep\<in>set eps. jf (episodeKey ep) = None \<Longrightarrow> \<not> chainActive v \<Longrightarrow>
   \<not> chainActive (scan tp clk jf cs i v eps)"
  by (induction eps arbitrary: i v) (simp_all add: loopBody_stays_inactive)

lemma aired_past_iff:
  "airedBefore tp now ep \<longleftrightarrow> (\<exists>t. tp (Aired ep) = Some t \<and> t < now)"
  by (simp add: airedBefore_def split: option.split)

subsection \<open>C1: a due episode is folded into the chain or reported\<close>

text \<open>
  Claim C1. Let \<open>e\<close> be an episode of the input, after the episodes \<open>pre\<close>, that is absent
  from Jellyfin, is not a special (or specials are checked), and whose air date parses and
  lies strictly before the clock reading of its iteration. Let \<open>v\<close> be the variables of
  the scan before \<open>e\<close>, \<open>v'\<close> after it, and \<open>accum\<close> the accumulated expected runtime
  including \<open>e\<close>. Then nothing is appended to \<open>missing\<close> for \<open>e\<close> if and only if the chain
  is active, its season is the season of \<open>e\<close>, and the comparison
  \<^verbatim>\<open>float64(chainJfRuntime) >= float64(accum)*0.85\<close> holds; in that case only the
  accumulator changes. Otherwise exactly the entry for \<open>e\<close> is appended and the chain is
  inactive afterwards and stays inactive over any run of episodes absent from Jellyfin, so
  that only an episode present in Jellyfin can start a new chain.
  What is in \<open>missing\<close> after \<open>e\<close> stays at the front of the final result. For runtimes
  up to \<open>2 ^ 48\<close> minutes the float64 comparison is the exact one: the observed runtime is
  at least 85 percent (\<open>17 / 20\<close>) of \<open>accum\<close>.
\<close>

theorem fold_or_report:
  assumes "jellyfinEpisodes (episodeKey e) = None"
    and "Episode.SeasonNumber e \<noteq> 0 \<or> checkSpecials"
    and "\<exists>t. timeParse (Aired e) = Some t \<and> t < clock (length pre)"
    and "v = scan timeParse clock jellyfinEpisodes checkSpecials 0 locals0 pre"
    and "v' = scan timeParse clock jellyfinEpisodes checkSpecials 0 locals0 (pre @ [e])"
    and "accum = chainTvdbRuntimeAccum v + Episode.RuntimeMinutes e"
  shows "(missing v' = missing v \<longleftrightarrow>
            chainActive v \<and> chainSeason v = Episode.SeasonNumber e \<and>
            reaches85 (chainJfRuntime v) accum) \<and>
         (missing v' = missing v \<longrightarrow> v' = v\<lparr>chainTvdbRuntimeAccum := accum\<rparr>) \<and>
         (missing v' \<noteq> missing v \<longrightarrow>
            missing v' = missing v @ [missingOf e] \<and> \<not> chainActive v' \<and>
            (\<forall>later. (\<forall>x\<in>set later. jellyfinEpisodes (episodeKey x) = None) \<longrightarrow>
               \<not> chainActive (scan timeParse clock jellyfinEpisodes checkSpecials
                   (Suc (length pre)) v' later))) \<and>
         prefix (missing v')
           (FindMissingEpisodes timeParse clock (pre @ e # post) jellyfinEpisodes checkSpecials) \<and>
         (\<bar>sint (chainJfRuntime v)\<bar> \<le> 2 ^ 48 \<and> \<bar>sint accum\<bar> \<le> 2 ^ 48 \<longrightarrow>
            reaches85 (chainJfRuntime v) accum = (17 * sint accum \<le> 20 * sint (chainJfRuntime v)))"
proof -
  from assms(3) have due: "airedBefore timeParse (clock (length pre)) e"
    by (simp add: aired_past_iff)
  have step: "v' = loopBody timeParse (clock (length pre)) jellyfinEpisodes checkSpecials v e"
    by (simp add: assms(4,5) scan_append)
  have "scan timeParse clock jellyfinEpisodes checkSpecials 0 locals0 (pre @ e # post) =
        scan timeParse clock jellyfinEpisodes checkSpecials (Suc (length pre)) v' post"
    by (simp add: assms(4,5) scan_append)
  then have front: "prefix (missing v')
      (FindMissingEpisodes timeParse clock (pre @ e # post) jellyfinEpisodes checkSpecials)"
    unfolding FindMissingEpisodes_def by (simp only: scan_missing_prefix)
  have exact: "\<bar>sint (chainJfRuntime v)\<bar> \<le> 2 ^ 48 \<and> \<bar>sint accum\<bar> \<le> 2 ^ 48 \<longrightarrow>
      reaches85 (chainJfRuntime v) accum = (17 * sint accum \<le> 20 * sint (chainJfRuntime v))"
    using reaches85_exact [of "chainJfRuntime v" accum] by blast
  note body = step [unfolded loopBody_due [where jf = jellyfinEpisodes and ep = e, OF assms(1,2) due],
      folded assms(6)]
  show ?thesis
  proof (cases "chainActive v \<and> chainSeason v = Episode.SeasonNumber e \<and>
      reaches85 (chainJfRuntime v) accum")
    case True
    with body have "v' = v\<lparr>chainTvdbRuntimeAccum := accum\<rparr>" by simp
    with True front exact show ?thesis by simp
  next
    case False
    with body have miss: "missing v' = missing v @ [missingOf e]" and off: "\<not> chainActive v'"
      by (auto split: if_splits)
    have "\<not> chainActive (scan timeParse clock jellyfinEpisodes checkSpecials (Suc (length pre)) v' later)"
      if "\<forall>x\<in>set later. jellyfinEpisodes (episodeKey x) = None" for later
      using that off by (rule scan_stays_inactive)
    with False front exact miss off show ?thesis by simp
  qed
qed

theorem fold_or_report_witness:
  "missing (scan exParse (clockAt 1580515200) (exLocal 102) False 0 locals0 ([exPilot] @ [exPart2])) =
     missing (scan exParse (clockAt 1580515200) (exLocal 102) False 0 locals0 [exPilot]) \<and>
   missing (scan exParse (clockAt 1580515200) (exLocal 100) False 0 locals0 ([exPilot] @ [exPart2])) =
     missing (scan exParse (clockAt 1580515200) (exLocal 100) False 0 locals0 [exPilot]) @ [missingOf exPart2]"
proof -
  have absent: "exLocal r (episodeKey exPart2) = None" for r
    by (simp add: exLocal_def) code_simp
  have regular: "Episode.SeasonNumber exPart2 \<noteq> 0 \<or> False"
    by (simp add: exPart2_def)
  have aired: "\<exists>t. exParse (Aired exPart2) = Some t \<and> t < clockAt 1580515200 (length [exPilot])"
    by (simp add: exParse_def exPart2_def clockAt_def)
  have before: "scan exParse (clockAt 1580515200) (exLocal r) False 0 locals0 [exPilot] =
      \<lparr>missing = [], chainActive = True, chainSeason = 1, chainJfRuntime = r,
       chainTvdbRuntimeAccum = 100\<rparr>" for r
  proof -
    have "exLocal r (episodeKey exPilot) = Some r"
      by (simp add: exLocal_def) code_simp
    then show ?thesis
      by (simp add: loopBody_def locals0_def exPilot_def)
  qed
  have yes: "reaches85 102 (100 + 20)" and no: "\<not> reaches85 100 (100 + 20)"
    by code_simp+
  have season: "Episode.SeasonNumber exPart2 = 1" and runtime: "Episode.RuntimeMinutes exPart2 = 20"
    by (simp_all add: exPart2_def)
  note inst = fold_or_report [where e = exPart2 and checkSpecials = False and timeParse = exParse
      and clock = "clockAt 1580515200" and pre = "[exPilot]" and post = "[]", OF _ regular aired refl refl refl]
  from inst [of "exLocal 102", OF absent] inst [of "exLocal 100", OF absent]
  show ?thesis
    unfolding before by (simp add: season runtime yes no)
qed

subsection \<open>C2: the threshold at 100 and 102 minutes\<close>

lemma reaches85_boundary:
  "\<not> reaches85 100 120" "reaches85 102 120"
  by code_simp+

text \<open>
  Claim C2. The input has two episodes of one season. The first is in Jellyfin, the second
  is not, has an expected runtime of 20 minutes and is due (not a special unless specials
  are checked, aired strictly before the clock reading of its iteration). The expected
  runtime of the first is 100 minutes, as in the claim's sum \<open>100 + 20\<close>. When the runtime
  observed in Jellyfin for the first is 100, the second is reported; when it is 102, the
  second is folded and nothing is reported.
\<close>

theorem threshold_boundary:
  assumes "Episode.RuntimeMinutes a = 100"
    and "Episode.RuntimeMinutes b = 20"
    and "Episode.SeasonNumber b = Episode.SeasonNumber a"
    and "jellyfinEpisodes (episodeKey a) = Some observed"
    and "jellyfinEpisodes (episodeKey b) = None"
    and "Episode.SeasonNumber b \<noteq> 0 \<or> checkSpecials"
    and "\<exists>t. timeParse (Aired b) = Some t \<and> t < clock 1"
  shows "(observed = 100 \<longrightarrow>
            FindMissingEpisodes timeParse clock [a, b] jellyfinEpisodes checkSpecials = [missingOf b]) \<and>
         (observed = 102 \<longrightarrow>
            FindMissingEpisodes timeParse clock [a, b] jellyfinEpisodes checkSpecials = [])"
proof -
  let ?v = "\<lparr>missing = [], chainActive = True, chainSeason = Episode.SeasonNumber a,
    chainJfRuntime = observed, chainTvdbRuntimeAccum = 100\<rparr>"
  from assms(7) have due: "airedBefore timeParse (clock (Suc 0)) b"
    by (simp add: aired_past_iff)
  have first: "loopBody timeParse (clock 0) jellyfinEpisodes checkSpecials locals0 a = ?v"
    by (simp add: loopBody_def locals0_def assms(1,4))
  have second: "loopBody timeParse (clock (Suc 0)) jellyfinEpisodes checkSpecials ?v b =
      (if reaches85 observed 120 then ?v\<lparr>chainTvdbRuntimeAccum := 120\<rparr>
       else ?v\<lparr>chainTvdbRuntimeAccum := 120, missing := [missingOf b], chainActive := False\<rparr>)"
    unfolding loopBody_due [where jf = jellyfinEpisodes and ep = b, OF assms(5,6) due]
    by (simp add: assms(2,3))
  have "FindMissingEpisodes timeParse clock [a, b] jellyfinEpisodes checkSpecials =
      (if reaches85 observed 120 then [] else [missingOf b])"
    by (simp add: FindMissingEpisodes_def first second)
  then show ?thesis
    by (simp add: reaches85_boundary)
qed

theorem threshold_boundary_witness:
  "FindMissingEpisodes exParse (clockAt 1580515200) [exPilot, exPart2] (exLocal 100) False =
     [missingOf exPart2] \<and>
   FindMissingEpisodes exParse (clockAt 1580515200) [exPilot, exPart2] (exLocal 102) False = []"
proof -
  have a: "Episode.RuntimeMinutes exPilot = 100"
    by (simp add: exPilot_def)
  have b: "Episode.RuntimeMinutes exPart2 = 20"
    by (simp add: exPart2_def)
  have season: "Episode.SeasonNumber exPart2 = Episode.SeasonNumber exPilot"
    by (simp add: exPart2_def exPilot_def)
  have present: "exLocal r (episodeKey exPilot) = Some r" for r
    by (simp add: exLocal_def) code_simp
  have absent: "exLocal r (episodeKey exPart2) = None" for r
    by (simp add: exLocal_def) code_simp
  have regular: "Episode.SeasonNumber exPart2 \<noteq> 0 \<or> False"
    by (simp add: exPart2_def)
  have aired: "\<exists>t. exParse (Aired exPart2) = Some t \<and> t < clockAt 1580515200 1"
    by (simp add: exParse_def exPart2_def clockAt_def)
  note inst = threshold_boundary [where a = exPilot and b = exPart2 and checkSpecials = False
      and timeParse = exParse and clock = "clockAt 1580515200", OF a b season _ _ regular aired]
  from inst [of "exLocal 100" 100, OF present absent] inst [of "exLocal 102" 102, OF present absent]
  show ?thesis by simp
qed

subsection \<open>C3: the result depends on the clock\<close>

text \<open>
  Claim C3 says that the result is a function of the episodes, the Jellyfin map and the
  specials flag alone. The loop also reads \<^verbatim>\<open>time.Now()\<close>: the same three arguments
  give one missing episode on a day between the two air dates and two missing episodes on
  a later day.
\<close>

theorem clock_changes_result:
  "FindMissingEpisodes exParse (clockAt 1578096000) [exPilot, exPart2] noLocal False =
     [missingOf exPilot] \<and>
   FindMissingEpisodes exParse (clockAt 1580515200) [exPilot, exPart2] noLocal False =
     [missingOf exPilot, missingOf exPart2] \<and>
   FindMissingEpisodes exParse (clockAt 1578096000) [exPilot, exPart2] noLocal False \<noteq>
   FindMissingEpisodes exParse (clockAt 1580515200) [exPilot, exPart2] noLocal False"
  by code_simp

text \<open>
  Claim C3, amended. The result is a function of the three arguments and of the clock:
  two runs on the same episodes, Jellyfin map and specials flag return the same list
  whenever the clock gives each episode the same verdict in both runs on whether its air
  date parses and lies strictly in the past; in particular whenever both runs read the
  same times.
\<close>

theorem same_verdicts_same_result:
  assumes "\<forall>i<length tvdbEpisodes.
             airedBefore timeParse (clock i) (tvdbEpisodes ! i) =
             airedBefore timeParse (clock' i) (tvdbEpisodes ! i)"
  shows "FindMissingEpisodes timeParse clock tvdbEpisodes jellyfinEpisodes checkSpecials =
         FindMissingEpisodes timeParse clock' tvdbEpisodes jellyfinEpisodes checkSpecials"
  unfolding FindMissingEpisodes_def
  by (rule arg_cong [where f = missing], rule scan_verdict_cong) (simp add: assms)

theorem same_verdicts_same_result_witness:
  "FindMissingEpisodes exParse (clockAt 1580515200) [exPilot, exUnaired, exPart2] (exLocal 102) False =
   FindMissingEpisodes exParse (clockAt 1600000000) [exPilot, exUnaired, exPart2] (exLocal 102) False"
proof (rule same_verdicts_same_result)
  show "\<forall>i<length [exPilot, exUnaired, exPart2].
      airedBefore exParse (clockAt 1580515200 i) ([exPilot, exUnaired, exPart2] ! i) =
      airedBefore exParse (clockAt 1600000000 i) ([exPilot, exUnaired, exPart2] ! i)"
    by (simp add: All_less_Suc airedBefore_def exParse_def clockAt_def exPilot_def exUnaired_def
        exPart2_def)
qed

subsection \<open>C4: an episode that is not due leaves the scan untouched\<close>

text \<open>
  Claim C4 counts an air date of today among the dates that are not strictly in the past.
  The loop compares instants: the parsed date is 00:00 UTC of its day, which is before
  \<^verbatim>\<open>time.Now()\<close> during that whole day. At noon of 2020-01-08 an absent episode dated
  2020-01-08 is reported.
\<close>

theorem aired_today_is_reported:
  "exParse (Aired exPart2) = Some 1578441600 \<and>
   1578441600 < (1578484800 :: int) \<and> (1578484800 :: int) < 1578441600 + 86400 \<and>
   FindMissingEpisodes exParse (clockAt 1578484800) [exPart2] noLocal False = [missingOf exPart2]"
  by code_simp

text \<open>
  Claim C4, amended. Let \<open>e\<close> be an episode of the input, after the episodes \<open>pre\<close>, that
  is absent from Jellyfin and whose air date does not parse (or is absent) or, as the
  instant the parser returns for it, is not strictly before the clock reading of its
  iteration (a date of today is strictly before it, once its day has begun in UTC).
  Then the iteration for \<open>e\<close> changes none of the variables of the scan: nothing is
  appended to \<open>missing\<close> and the four chain variables keep their values. The whole
  result is the result for the input without \<open>e\<close>, every other episode seeing the clock
  reading it had, so an episode after \<open>e\<close> still folds into the chain that was active
  before \<open>e\<close>.
\<close>

theorem not_due_is_skipped:
  assumes "jellyfinEpisodes (episodeKey e) = None"
    and "\<forall>t. timeParse (Aired e) = Some t \<longrightarrow> clock (length pre) \<le> t"
  shows "scan timeParse clock jellyfinEpisodes checkSpecials 0 locals0 (pre @ [e]) =
           scan timeParse clock jellyfinEpisodes checkSpecials 0 locals0 pre \<and>
         FindMissingEpisodes timeParse clock (pre @ e # post) jellyfinEpisodes checkSpecials =
           FindMissingEpisodes timeParse (\<lambda>i. if i < length pre then clock i else clock (Suc i))
             (pre @ post) jellyfinEpisodes checkSpecials"
proof -
  let ?clock' = "\<lambda>i. if i < length pre then clock i else clock (Suc i)"
  let ?v = "scan timeParse clock jellyfinEpisodes checkSpecials 0 locals0 pre"
  from assms(2) have notdue: "\<not> airedBefore timeParse (clock (length pre)) e"
    by (auto simp add: aired_past_iff)
  have skip: "loopBody timeParse (clock (length pre)) jellyfinEpisodes checkSpecials ?v e = ?v"
    using assms(1) notdue by (rule loopBody_skip)
  have one: "scan timeParse clock jellyfinEpisodes checkSpecials 0 locals0 (pre @ [e]) = ?v"
    by (simp add: scan_append skip)
  have pre: "scan timeParse ?clock' jellyfinEpisodes checkSpecials 0 locals0 pre = ?v"
    by (rule scan_verdict_cong) simp
  have post: "scan timeParse clock jellyfinEpisodes checkSpecials (Suc (length pre)) w post =
              scan timeParse ?clock' jellyfinEpisodes checkSpecials (length pre) w post" for w
    by (rule scan_verdict_cong) simp
  have "scan timeParse clock jellyfinEpisodes checkSpecials 0 locals0 (pre @ e # post) =
        scan timeParse clock jellyfinEpisodes checkSpecials (Suc (length pre)) ?v post"
    by (simp add: scan_append skip)
  also have "\<dots> = scan timeParse ?clock' jellyfinEpisodes checkSpecials 0 locals0 (pre @ post)"
    by (simp only: scan_append pre post add_0)
  finally show ?thesis
    unfolding FindMissingEpisodes_def using one by simp
qed

theorem not_due_is_skipped_witness:
  "scan exParse (clockAt 1580515200) (exLocal 102) False 0 locals0 ([exPilot] @ [exUnaired]) =
     \<lparr>missing = [], chainActive = True, chainSeason = 1, chainJfRuntime = 102,
      chainTvdbRuntimeAccum = 100\<rparr> \<and>
   FindMissingEpisodes exParse (clockAt 1580515200) ([exPilot] @ exUnaired # [exPart2]) (exLocal 102) False =
     []"
proof -
  have absent: "exLocal 102 (episodeKey exUnaired) = None"
    by code_simp
  have nodate: "\<forall>t. exParse (Aired exUnaired) = Some t \<longrightarrow> clockAt 1580515200 (length [exPilot]) \<le> t"
    by (simp add: exParse_def exUnaired_def)
  have before: "scan exParse (clockAt 1580515200) (exLocal 102) False 0 locals0 [exPilot] =
      \<lparr>missing = [], chainActive = True, chainSeason = 1, chainJfRuntime = 102,
       chainTvdbRuntimeAccum = 100\<rparr>"
    by code_simp
  have without: "FindMissingEpisodes exParse
      (\<lambda>i. if i < length [exPilot] then clockAt 1580515200 i else clockAt 1580515200 (Suc i))
      ([exPilot] @ [exPart2]) (exLocal 102) False = []"
    by code_simp
  from not_due_is_skipped [where e = exUnaired and pre = "[exPilot]" and post = "[exPart2]"
      and jellyfinEpisodes = "exLocal 102" and timeParse = exParse and clock = "clockAt 1580515200"
      and checkSpecials = False, OF absent nodate]
  show ?thesis
    unfolding before without .
qed

subsection \<open>C8: with nothing in Jellyfin every aired episode is reported\<close>

lemma scan_nothing_local:
  assumes "\<forall>ep\<in>set eps. jf (episodeKey ep) = None"
    and "\<forall>j<length eps. airedBefore tp (clk (i + j)) (eps ! j)"
    and "\<not> chainActive v"
  shows "missing (scan tp clk jf cs i v eps) =
           missing v @ map missingOf (filter (\<lambda>ep. Episode.SeasonNumber ep \<noteq> 0 \<or> cs) eps)"
  using assms
proof (induction eps arbitrary: i v)
  case Nil
  show ?case by simp
next
  case (Cons ep eps)
  let ?w = "loopBody tp (clk i) jf cs v ep"
  let ?P = "\<lambda>ep. Episode.SeasonNumber ep \<noteq> 0 \<or> cs"
  from Cons.prems(1) have key: "jf (episodeKey ep) = None"
    by simp
  from Cons.prems(2) [rule_format, of 0] have aired: "airedBefore tp (clk i) ep"
    by simp
  note w = loopBody_inactive [where jf = jf and ep = ep and cs = cs, OF key aired Cons.prems(3)]
  have inactive: "\<not> chainActive ?w"
    unfolding w using Cons.prems(3) by simp
  have mw: "missing ?w = missing v @ map missingOf (filter ?P [ep])"
    unfolding w by simp
  have rest: "\<forall>j<length eps. airedBefore tp (clk (Suc i + j)) (eps ! j)"
  proof (intro allI impI)
    fix j assume "j < length eps"
    then have "Suc j < length (ep # eps)" by simp
    from Cons.prems(2) [rule_format, OF this]
    show "airedBefore tp (clk (Suc i + j)) (eps ! j)" by simp
  qed
  from Cons.prems(1) have "\<forall>ep\<in>set eps. jf (episodeKey ep) = None" by simp
  from Cons.IH [OF this rest inactive]
  have "missing (scan tp clk jf cs (Suc i) ?w eps) = missing ?w @ map missingOf (filter ?P eps)" .
  then have "missing (scan tp clk jf cs i v (ep # eps)) =
      (missing v @ map missingOf (filter ?P [ep])) @ map missingOf (filter ?P eps)"
    unfolding mw by simp
  also have "\<dots> = missing v @ map missingOf (filter ?P (ep # eps))"
    by simp
  finally show ?case .
qed

text \<open>
  Claim C8. When no episode of the input is in Jellyfin and every air date parses and lies
  strictly before the clock reading of its iteration, the result lists, in input order,
  exactly the episodes of a season other than 0 when specials are not checked, and
  exactly all episodes when they are.
\<close>

theorem nothing_local_all_reported:
  assumes "\<forall>ep\<in>set tvdbEpisodes. jellyfinEpisodes (episodeKey ep) = None"
    and "\<forall>i<length tvdbEpisodes. \<exists>t. timeParse (Aired (tvdbEpisodes ! i)) = Some t \<and> t < clock i"
  shows "FindMissingEpisodes timeParse clock tvdbEpisodes jellyfinEpisodes False =
           map missingOf (filter (\<lambda>ep. Episode.SeasonNumber ep \<noteq> 0) tvdbEpisodes) \<and>
         FindMissingEpisodes timeParse clock tvdbEpisodes jellyfinEpisodes True =
           map missingOf tvdbEpisodes"
proof -
  from assms(2)
  have aired: "\<forall>j<length tvdbEpisodes. airedBefore timeParse (clock (0 + j)) (tvdbEpisodes ! j)"
    by (simp add: aired_past_iff)
  have inactive: "\<not> chainActive locals0"
    by (simp add: locals0_def)
  have nil: "missing locals0 = []"
    by (simp add: locals0_def)
  show ?thesis
    unfolding FindMissingEpisodes_def
    using scan_nothing_local [OF assms(1) aired inactive, of False]
      scan_nothing_local [OF assms(1) aired inactive, of True]
    by (simp add: nil)
qed

theorem nothing_local_all_reported_witness:
  "FindMissingEpisodes exParse (clockAt 1580515200) [exSpecial, exPilot, exPart2] noLocal False =
     [missingOf exPilot, missingOf exPart2] \<and>
   FindMissingEpisodes exParse (clockAt 1580515200) [exSpecial, exPilot, exPart2] noLocal True =
     [missingOf exSpecial, missingOf exPilot, missingOf exPart2]"
proof -
  have absent: "\<forall>ep\<in>set [exSpecial, exPilot, exPart2]. noLocal (episodeKey ep) = None"
    by (simp add: noLocal_def)
  have aired: "\<forall>i<length [exSpecial, exPilot, exPart2].
      \<exists>t. exParse (Aired ([exSpecial, exPilot, exPart2] ! i)) = Some t \<and> t < clockAt 1580515200 i"
    by (simp add: All_less_Suc exParse_def clockAt_def exSpecial_def exPilot_def exPart2_def)
  have seasons: "Episode.SeasonNumber exSpecial = 0" "Episode.SeasonNumber exPilot \<noteq> 0"
    "Episode.SeasonNumber exPart2 \<noteq> 0"
    by (simp_all add: exSpecial_def exPilot_def exPart2_def)
  from nothing_local_all_reported [OF absent aired]
  show ?thesis
    by (simp add: seasons)
qed

subsection \<open>C10: the result is a subsequence of the input\<close>

lemma scan_missing_subseq:
  "\<exists>es. subseq es eps \<and> (\<forall>ep\<in>set es. jf (episodeKey ep) = None) \<and>
        missing (scan tp clk jf cs i v eps) = missing v @ map missingOf es"
proof (induction eps arbitrary: i v)
  case Nil
  show ?case by simp
next
  case (Cons ep eps)
  let ?w = "loopBody tp (clk i) jf cs v ep"
  from Cons.IH [of "Suc i" ?w] obtain es where es:
    "subseq es eps" "\<forall>ep\<in>set es. jf (episodeKey ep) = None"
    "missing (scan tp clk jf cs (Suc i) ?w eps) = missing ?w @ map missingOf es"
    by blast
  from loopBody_missing_cases [of tp "clk i" jf cs v ep] show ?case
  proof
    assume "missing ?w = missing v"
    with es have "subseq es (ep # eps) \<and> (\<forall>ep\<in>set es. jf (episodeKey ep) = None) \<and>
        missing (scan tp clk jf cs i v (ep # eps)) = missing v @ map missingOf es"
      by auto
    then show ?thesis by blast
  next
    assume "missing ?w = missing v @ [missingOf ep] \<and> jf (episodeKey ep) = None"
    with es have "subseq (ep # es) (ep # eps) \<and> (\<forall>ep\<in>set (ep # es). jf (episodeKey ep) = None) \<and>
        missing (scan tp clk jf cs i v (ep # eps)) = missing v @ map missingOf (ep # es)"
      by simp
    then show ?thesis by blast
  qed
qed

text \<open>
  Claim C10. For every input, the result is made from a subsequence \<open>es\<close> of the input
  episodes (distinct positions, in input order), each of them absent from Jellyfin: the
  result has one entry per episode of \<open>es\<close>, in the same order, with that episode's
  season number, episode number, name, air date string and overview, and with an empty
  \<open>SeriesName\<close>.
\<close>

theorem result_is_subsequence:
  "\<exists>es. subseq es tvdbEpisodes \<and>
     (\<forall>ep\<in>set es. jellyfinEpisodes (episodeKey ep) = None) \<and>
     FindMissingEpisodes timeParse clock tvdbEpisodes jellyfinEpisodes checkSpecials =
       map (\<lambda>ep. \<lparr>MissingEpisode.SeriesName = [],
                   SeasonNumber = Episode.SeasonNumber ep,
                   EpisodeNumber = Number ep,
                   EpisodeName = Episode.Name ep,
                   AirDate = Aired ep,
                   Overview = Episode.Overview ep\<rparr>) es"
proof -
  have m: "missingOf = (\<lambda>ep. \<lparr>MissingEpisode.SeriesName = [],
                   SeasonNumber = Episode.SeasonNumber ep,
                   EpisodeNumber = Number ep,
                   EpisodeName = Episode.Name ep,
                   AirDate = Aired ep,
                   Overview = Episode.Overview ep\<rparr>)"
    by (rule ext) (simp add: missingOf_def)
  from scan_missing_subseq [of tvdbEpisodes jellyfinEpisodes timeParse clock checkSpecials 0 locals0]
  show ?thesis
    unfolding FindMissingEpisodes_def m by (simp add: locals0_def)
qed

theorem result_is_subsequence_witness:
  "(\<exists>es. subseq es [exPilot, exUnaired, exPart2] \<and>
      (\<forall>ep\<in>set es. exLocal 100 (episodeKey ep) = None) \<and>
      FindMissingEpisodes exParse (clockAt 1580515200) [exPilot, exUnaired, exPart2] (exLocal 100) False =
        map (\<lambda>ep. \<lparr>MissingEpisode.SeriesName = [],
                    SeasonNumber = Episode.SeasonNumber ep,
                    EpisodeNumber = Number ep,
                    EpisodeName = Episode.Name ep,
                    AirDate = Aired ep,
                    Overview = Episode.Overview ep\<rparr>) es) \<and>
   FindMissingEpisodes exParse (clockAt 1580515200) [exPilot, exUnaired, exPart2] (exLocal 100) False =
     [\<lparr>MissingEpisode.SeriesName = [], SeasonNumber = 1, EpisodeNumber = 3,
       EpisodeName = ''Part 2'', AirDate = ''2020-01-08'', Overview = ''It goes on''\<rparr>]"
proof
  show "\<exists>es. subseq es [exPilot, exUnaired, exPart2] \<and>
      (\<forall>ep\<in>set es. exLocal 100 (episodeKey ep) = None) \<and>
      FindMissingEpisodes exParse (clockAt 1580515200) [exPilot, exUnaired, exPart2] (exLocal 100) False =
        map (\<lambda>ep. \<lparr>MissingEpisode.SeriesName = [],
                    SeasonNumber = Episode.SeasonNumber ep,
                    EpisodeNumber = Number ep,
                    EpisodeName = Episode.Name ep,
                    AirDate = Aired ep,
                    Overview = Episode.Overview ep\<rparr>) es"
    by (rule result_is_subsequence)
  show "FindMissingEpisodes exParse (clockAt 1580515200) [exPilot, exUnaired, exPart2] (exLocal 100) False =
     [\<lparr>MissingEpisode.SeriesName = [], SeasonNumber = 1, EpisodeNumber = 3,
       EpisodeName = ''Part 2'', AirDate = ''2020-01-08'', Overview = ''It goes on''\<rparr>]"
    by code_simp
qed

section \<open>Properties of the restore\<close>

subsection \<open>C5: provider IDs first, then the name\<close>

lemma tryProviderIDs_or:
  "(case tryProviderIDs m ids of Some info \<Rightarrow> Some info | None \<Rightarrow> g) =
     (case find (\<lambda>(provider, pid). m (provider @ '':'' @ pid) \<noteq> None) ids of
        Some (provider, pid) \<Rightarrow> m (provider @ '':'' @ pid)
      | None \<Rightarrow> g)"
  by (induction m ids rule: tryProviderIDs.induct) (auto split: option.split)

text \<open>
  Claim C5. For every snapshot record and every pair of lookup maps, resolving the record
  gives the entry of the provider map under the first key \<open>provider:id\<close> of the record,
  in the order the record's provider IDs are visited, that the provider map contains.
  Only when the provider map contains none of the record's keys is the secondary map
  looked at: under the name for a movie, under \<open>seasonName:name\<close> for an episode; when
  that fails too, the record is not found (\<open>None\<close>). So a record that matches both ways
  resolves to its provider match.
\<close>

theorem provider_ids_first:
  "resolveMovie providerIdMap nameMap movie =
     (case find (\<lambda>(provider, pid). providerIdMap (provider @ '':'' @ pid) \<noteq> None)
             (WatchedItem.ProviderIDs movie) of
        Some (provider, pid) \<Rightarrow> providerIdMap (provider @ '':'' @ pid)
      | None \<Rightarrow> nameMap (WatchedItem.Name movie)) \<and>
   resolveEpisode episodeIdMap nameSeasonMap episode =
     (case find (\<lambda>(provider, pid). episodeIdMap (provider @ '':'' @ pid) \<noteq> None)
             (WatchedItem.ProviderIDs episode) of
        Some (provider, pid) \<Rightarrow> episodeIdMap (provider @ '':'' @ pid)
      | None \<Rightarrow> nameSeasonMap (WatchedItem.SeasonName episode @ '':'' @ WatchedItem.Name episode))"
  unfolding resolveMovie_def resolveEpisode_def tryProviderIDs_or
  by (rule conjI; rule refl)

theorem provider_ids_first_witness:
  "resolveMovie exIds exNames exMovie = Some \<lparr>MovieInfo.ID = ''m1'', Played = True\<rparr> \<and>
   resolveMovie Map.empty exNames exMovie = Some \<lparr>MovieInfo.ID = ''m2'', Played = False\<rparr> \<and>
   resolveMovie Map.empty Map.empty exMovie = None \<and>
   resolveEpisode Map.empty exSeasonNames exEpisode = Some \<lparr>main_EpisodeInfo.ID = ''e5'', Played = True\<rparr>"
  using provider_ids_first [of exIds exNames exMovie Map.empty exSeasonNames exEpisode]
    provider_ids_first [of Map.empty exNames exMovie Map.empty exSeasonNames exEpisode]
    provider_ids_first [of Map.empty Map.empty exMovie Map.empty exSeasonNames exEpisode]
  by (simp add: exIds_def exNames_def exSeasonNames_def exMovie_def exEpisode_def)

subsection \<open>C6: a series that is not found fails its whole group\<close>

lemma foldl_add_length:
  "foldl (\<lambda>n season. n + length (snd season)) k seasons =
     k + (\<Sum>season\<leftarrow>seasons. length (snd season))"
  by (induction seasons arbitrary: k) simp_all

lemma countEpisodes_sum:
  "countEpisodes seasons = (\<Sum>season\<leftarrow>seasons. length (snd season))"
  by (simp add: countEpisodes_def foldl_add_length)

lemma FindSeriesID_requests:
  "snd (FindSeriesID client h seriesName) = h @ [SearchSeries seriesName]"
  by (simp add: FindSeriesID_def Let_def split: sum.split option.split list.split)

text \<open>
  Claim C6. Let the series group \<open>(seriesName, seasons)\<close> come after the groups \<open>pre\<close>,
  and let \<^verbatim>\<open>FindSeriesID\<close> return an error for it. Then the group adds the number of
  all its snapshot episodes to \<open>failed\<close> and nothing to \<open>successful\<close>, the only request
  sent for it is the series search itself (no episode list is fetched and no item is
  marked), and the groups \<open>post\<close> after it are processed from that state.
\<close>

theorem series_not_found_fails_group:
  assumes "fst (FindSeriesID client (requests (restoreTVShows client h pre)) seriesName) = Inl err"
  shows "restoreTVShows client h (pre @ [(seriesName, seasons)]) =
           (let t = restoreTVShows client h pre
            in t\<lparr>failed := failed t + (\<Sum>season\<leftarrow>seasons. length (snd season)),
                 requests := requests t @ [SearchSeries seriesName]\<rparr>) \<and>
         restoreTVShows client h (pre @ (seriesName, seasons) # post) =
           foldl (showBody client) (restoreTVShows client h (pre @ [(seriesName, seasons)])) post"
proof -
  let ?t = "restoreTVShows client h pre"
  obtain r h2 where rh: "FindSeriesID client (requests ?t) seriesName = (r, h2)"
    by (cases "FindSeriesID client (requests ?t) seriesName")
  with assms FindSeriesID_requests [of client "requests ?t" seriesName]
  have r: "r = Inl err" and h2: "h2 = requests ?t @ [SearchSeries seriesName]"
    by simp_all
  have "showBody client ?t (seriesName, seasons) =
          ?t\<lparr>failed := failed ?t + (\<Sum>season\<leftarrow>seasons. length (snd season)),
              requests := requests ?t @ [SearchSeries seriesName]\<rparr>"
    by (simp add: showBody_def rh r h2 countEpisodes_sum)
  then show ?thesis
    by (simp add: restoreTVShows_def Let_def)
qed

theorem series_not_found_fails_group_witness:
  "restoreTVShows exServer [] ([] @ [(''Show'', [(''Season 1'', [exEpisode, exEpisode])])]) =
     \<lparr>successful = 0, failed = 2, requests = [SearchSeries ''Show'']\<rparr>"
proof -
  have start: "restoreTVShows exServer [] [] = \<lparr>successful = 0, failed = 0, requests = []\<rparr>"
    by (simp add: restoreTVShows_def)
  have "fst (FindSeriesID exServer (requests (restoreTVShows exServer [] [])) ''Show'') =
      Inl (SeriesNotFound ''Show'')"
    by (simp add: start FindSeriesID_def exServer_def)
  from series_not_found_fails_group [OF this, of "[(''Season 1'', [exEpisode, exEpisode])]" "[]"]
  show ?thesis
    by (simp add: start)
qed

subsection \<open>C7: an item already played is counted and not marked\<close>

lemma movieBody_played:
  assumes "resolveMovie pm nm movie = Some info" and "MovieInfo.Played info"
  shows "movieBody client pm nm t movie = t\<lparr>successful := successful t + 1\<rparr>"
  using assms by (simp add: movieBody_def)

lemma episodeBody_played:
  assumes "resolveEpisode pm nm episode = Some info" and "main_EpisodeInfo.Played info"
  shows "episodeBody client pm nm t episode = t\<lparr>successful := successful t + 1\<rparr>"
  using assms by (simp add: episodeBody_def)

text \<open>
  Claim C7. A snapshot movie, at any position of the batch, that resolves to a live movie
  already played adds one to \<open>successful\<close> and changes nothing else: \<open>failed\<close> and the
  history of requests stay as they were, so no request to mark the item is sent. The
  same holds for a snapshot episode at any position of its season's list. Both hold for
  every server, also one that would answer every marking request with an error.
\<close>

theorem already_played_not_marked:
  "(GetAllMovies client h = (Inr (providerIdMap, nameMap), h') \<and>
    resolveMovie providerIdMap nameMap movie = Some movieInfo \<and> MovieInfo.Played movieInfo \<longrightarrow>
      restoreMovies client h (pre @ [movie]) =
        (let t = restoreMovies client h pre in t\<lparr>successful := successful t + 1\<rparr>)) \<and>
   (resolveEpisode episodeIdMap nameSeasonMap episode = Some episodeInfo \<and>
    main_EpisodeInfo.Played episodeInfo \<longrightarrow>
      seasonBody client episodeIdMap nameSeasonMap t0 (seasonName, before @ [episode]) =
        (let t = seasonBody client episodeIdMap nameSeasonMap t0 (seasonName, before)
         in t\<lparr>successful := successful t + 1\<rparr>))"
  by (simp add: restoreMovies_def seasonBody_def Let_def movieBody_played episodeBody_played)

theorem already_played_not_marked_witness:
  "restoreMovies exServer [] ([] @ [exMovie]) =
     \<lparr>successful = 1, failed = 0, requests = [GetMovies]\<rparr> \<and>
   seasonBody exServer Map.empty exSeasonNames \<lparr>successful = 0, failed = 0, requests = []\<rparr>
       (''Season 1'', [] @ [exEpisode]) =
     \<lparr>successful = 1, failed = 0, requests = []\<rparr>"
proof -
  let ?info = "\<lparr>MovieInfo.ID = ''m1'', Played = True\<rparr>"
  let ?ids = "[''Imdb:tt1'' \<mapsto> ?info]"
  let ?names = "[''Heat'' \<mapsto> ?info]"
  have fetch: "GetAllMovies exServer [] = (Inr (?ids, ?names), [GetMovies])"
    by (simp add: GetAllMovies_def exServer_def addMovie_def putAll_def Let_def)
  have movie: "resolveMovie ?ids ?names exMovie = Some ?info"
    by (simp add: resolveMovie_def exMovie_def)
  have episode: "resolveEpisode Map.empty exSeasonNames exEpisode =
      Some \<lparr>main_EpisodeInfo.ID = ''e5'', Played = True\<rparr>"
    by (simp add: resolveEpisode_def exEpisode_def exSeasonNames_def)
  have none: "restoreMovies exServer [] [] = \<lparr>successful = 0, failed = 0, requests = [GetMovies]\<rparr>"
    by (simp add: restoreMovies_def fetch)
  from already_played_not_marked [of exServer "[]" ?ids ?names "[GetMovies]" exMovie ?info "[]"
      Map.empty exSeasonNames exEpisode "\<lparr>main_EpisodeInfo.ID = ''e5'', Played = True\<rparr>"
      "\<lparr>successful = 0, failed = 0, requests = []\<rparr>" "''Season 1''" "[]"]
  show ?thesis
    by (simp add: fetch movie episode none seasonBody_def)
qed

subsection \<open>C9: every record is counted once\<close>

lemma movieBody_counts:
  "successful (movieBody client pm nm t movie) + failed (movieBody client pm nm t movie) =
     successful t + failed t + 1"
  by (simp add: movieBody_def MarkAsWatched_def split: option.split)

lemma episodeBody_counts:
  "successful (episodeBody client pm nm t episode) + failed (episodeBody client pm nm t episode) =
     successful t + failed t + 1"
  by (simp add: episodeBody_def MarkAsWatched_def split: option.split)

lemma movies_loop_counts:
  "successful (foldl (movieBody client pm nm) t movies) +
   failed (foldl (movieBody client pm nm) t movies) = successful t + failed t + length movies"
  by (induction movies arbitrary: t) (simp_all add: movieBody_counts)

lemma episodes_loop_counts:
  "successful (foldl (episodeBody client pm nm) t episodes) +
   failed (foldl (episodeBody client pm nm) t episodes) = successful t + failed t + length episodes"
  by (induction episodes arbitrary: t) (simp_all add: episodeBody_counts)

lemma seasons_loop_counts:
  "successful (foldl (seasonBody client pm nm) t seasons) +
   failed (foldl (seasonBody client pm nm) t seasons) =
     successful t + failed t + (\<Sum>season\<leftarrow>seasons. length (snd season))"
  by (induction seasons arbitrary: t) (simp_all add: seasonBody_def episodes_loop_counts)

lemma showBody_counts:
  "successful (showBody client t entry) + failed (showBody client t entry) =
     successful t + failed t + (\<Sum>season\<leftarrow>snd entry. length (snd season))"
  by (simp add: showBody_def Let_def countEpisodes_sum seasons_loop_counts
      split: prod.split sum.split)

lemma shows_loop_counts:
  "successful (foldl (showBody client) t tvShowMap) + failed (foldl (showBody client) t tvShowMap) =
     successful t + failed t + (\<Sum>entry\<leftarrow>tvShowMap. \<Sum>season\<leftarrow>snd entry. length (snd season))"
  by (induction tvShowMap arbitrary: t) (simp_all add: showBody_counts)

text \<open>
  Claim C9. For every batch of snapshot movies the two counts returned by
  \<^verbatim>\<open>restoreMovies\<close> add up to the number of movies; when fetching the live movies fails,
  \<open>successful\<close> is 0 and \<open>failed\<close> is the number of movies. For every grouping of
  snapshot episodes by series and season the two counts returned by \<^verbatim>\<open>restoreTVShows\<close>
  add up to the number of episodes in all groups. The loop body for one movie, and the
  one for one episode, adds one to exactly one of the two counters and leaves the other
  as it is.
\<close>

theorem restore_counts_add_up:
  "successful (restoreMovies client h movies) + failed (restoreMovies client h movies) = length movies \<and>
   (fst (GetAllMovies client h) = Inl err \<longrightarrow>
      successful (restoreMovies client h movies) = 0 \<and>
      failed (restoreMovies client h movies) = length movies) \<and>
   successful (restoreTVShows client h tvShowMap) + failed (restoreTVShows client h tvShowMap) =
     (\<Sum>entry\<leftarrow>tvShowMap. \<Sum>season\<leftarrow>snd entry. length (snd season)) \<and>
   (let t' = movieBody client providerIdMap nameMap t movie
    in successful t' = successful t + 1 \<and> failed t' = failed t \<or>
       successful t' = successful t \<and> failed t' = failed t + 1) \<and>
   (let t' = episodeBody client episodeIdMap nameSeasonMap t episode
    in successful t' = successful t + 1 \<and> failed t' = failed t \<or>
       successful t' = successful t \<and> failed t' = failed t + 1)"
proof (intro conjI impI)
  show "successful (restoreMovies client h movies) + failed (restoreMovies client h movies) = length movies"
    by (simp add: restoreMovies_def movies_loop_counts split: prod.split sum.split)
  show "successful (restoreTVShows client h tvShowMap) + failed (restoreTVShows client h tvShowMap) =
     (\<Sum>entry\<leftarrow>tvShowMap. \<Sum>season\<leftarrow>snd entry. length (snd season))"
    by (simp add: restoreTVShows_def shows_loop_counts)
  show "let t' = movieBody client providerIdMap nameMap t movie
    in successful t' = successful t + 1 \<and> failed t' = failed t \<or>
       successful t' = successful t \<and> failed t' = failed t + 1"
    by (simp add: movieBody_def MarkAsWatched_def split: option.split)
  show "let t' = episodeBody client episodeIdMap nameSeasonMap t episode
    in successful t' = successful t + 1 \<and> failed t' = failed t \<or>
       successful t' = successful t \<and> failed t' = failed t + 1"
    by (simp add: episodeBody_def MarkAsWatched_def split: option.split)
  assume "fst (GetAllMovies client h) = Inl err"
  then show "successful (restoreMovies client h movies) = 0"
    and "failed (restoreMovies client h movies) = length movies"
    by (cases "GetAllMovies client h"; simp add: restoreMovies_def)+
qed

theorem restore_counts_add_up_witness:
  "successful (restoreMovies exServer [] [exMovie, exMovie]) +
     failed (restoreMovies exServer [] [exMovie, exMovie]) = 2 \<and>
   successful (restoreMovies exOffline [] [exMovie, exMovie]) = 0 \<and>
   failed (restoreMovies exOffline [] [exMovie, exMovie]) = 2 \<and>
   successful (restoreTVShows exServer [] [(''Show'', [(''Season 1'', [exEpisode]), (''Season 2'', [exEpisode])])]) +
     failed (restoreTVShows exServer [] [(''Show'', [(''Season 1'', [exEpisode]), (''Season 2'', [exEpisode])])]) = 2"
proof -
  have offline: "fst (GetAllMovies exOffline []) = Inl RequestFailed"
    by (simp add: GetAllMovies_def exOffline_def)
  from restore_counts_add_up [where client = exServer and h = "[]" and movies = "[exMovie, exMovie]"
      and err = RequestFailed
      and tvShowMap = "[(''Show'', [(''Season 1'', [exEpisode]), (''Season 2'', [exEpisode])])]"]
    restore_counts_add_up [where client = exOffline and h = "[]" and movies = "[exMovie, exMovie]"
      and err = RequestFailed and tvShowMap = "[]"]
  show ?thesis
    by (simp add: offline)
qed

end
